theory Spec2Isabelle
  imports Complex_Main
begin

section \<open>CelestialProjection: values, arguments and errors\<close>

text \<open>
  The module \<^verbatim>\<open>src/util/CelestialProjection.js\<close> is a set of pure numeric functions.
  In the functions of this first model a JavaScript Number is a mathematical real and the
  arithmetic is exact: \<^verbatim>\<open>Math.floor\<close>, \<^verbatim>\<open>Math.sin\<close>, \<^verbatim>\<open>Math.cos\<close>,
  \<^verbatim>\<open>Math.tan\<close>, \<^verbatim>\<open>Math.asin\<close> and \<^verbatim>\<open>Math.atan\<close> are the real functions they
  approximate, and NaN and the infinities are outside the model. The theorems about this
  model are those that rounding does not touch: which stage is called on what, which
  formula is evaluated, which argument raises, equal inputs and order of the Julian date.
  The range of \<^verbatim>\<open>normalizeAngle\<close> is not one of them: it is settled on the model in
  double precision further down.
  (Where the cosine of its argument is zero, \<open>tan\<close> of HOL is zero; no
  floating-point number is such an argument, and no theorem below depends on the value.)

  An argument of a function that expects a Number or an object is \<open>Undefined\<close>,
  \<open>Null\<close> or a value of the documented type: the tests \<^verbatim>\<open>x == null\<close> and
  \<^verbatim>\<open>!x\<close> of the source are true of the first two and false of an object or of a
  Number other than zero. An argument of a function that expects a Date is either some
  value that is not an instance of Date (\<open>NonDate\<close>), or a valid Date object,
  given by its time value in milliseconds since 1970-01-01T00:00:00Z.
\<close>

datatype 'a jsarg = Undefined | Null | Present 'a

datatype datearg = NonDate | Date int

text \<open>
  \<^verbatim>\<open>new ArgumentError(Logger.logMessage(Logger.LEVEL_SEVERE, className, functionName, message))\<close>:
  the error carries the name of the function that raised it and the message key.
\<close>

datatype error = ArgumentError string string

record celestialLocation =
  declination :: real
  rightAscension :: real

record geographicLocation =
  latitude :: real
  longitude :: real

definition Math_floor :: "real \<Rightarrow> real" where
  "Math_floor x = of_int \<lfloor>x\<rfloor>"

section \<open>The Date accessors (ECMA-262, Date objects)\<close>

text \<open>
  The accessors \<^verbatim>\<open>getUTCFullYear\<close>, \<^verbatim>\<open>getUTCMonth\<close>, \<^verbatim>\<open>getUTCDate\<close>,
  \<^verbatim>\<open>getUTCHours\<close>, \<^verbatim>\<open>getUTCMinutes\<close> and \<^verbatim>\<open>getUTCSeconds\<close> belong to the
  language, not to the repository. They are defined here as the ECMAScript standard defines
  them, from the time value \<open>t\<close>, with the standard's names. \<open>div\<close> and \<open>mod\<close> on
  \<open>int\<close> round towards minus infinity, as the standard's \<open>floor\<close> and \<open>modulo\<close> do.
\<close>

definition msPerDay :: int where
  "msPerDay = 86400000"

definition msPerHour :: int where
  "msPerHour = 3600000"

definition msPerMinute :: int where
  "msPerMinute = 60000"

definition msPerSecond :: int where
  "msPerSecond = 1000"

definition Day :: "int \<Rightarrow> int" where
  "Day t = t div msPerDay"

definition DaysInYear :: "int \<Rightarrow> int" where
  "DaysInYear y =
     (if y mod 4 \<noteq> 0 then 365
      else if y mod 100 \<noteq> 0 then 366
      else if y mod 400 \<noteq> 0 then 365
      else 366)"

definition DayFromYear :: "int \<Rightarrow> int" where
  "DayFromYear y =
     365 * (y - 1970) + (y - 1969) div 4 - (y - 1901) div 100 + (y - 1601) div 400"

text \<open>
  The standard defines \<open>YearFromTime t\<close> as the largest year \<open>y\<close> whose first day is
  not after \<open>t\<close>. It is computed here from the mean length of a Gregorian year (146097 days
  in 400 years), which is at most one year off, and then adjusted; lemma
  \<open>YearFromTime_greatest\<close> below shows that the result is the year of the standard.
\<close>

definition YearFromTime :: "int \<Rightarrow> int" where
  "YearFromTime t =
     (let d = Day t;
          y0 = 1970 + (400 * d) div 146097
      in if DayFromYear (y0 + 1) \<le> d then y0 + 1
         else if DayFromYear y0 \<le> d then y0
         else y0 - 1)"

definition InLeapYear :: "int \<Rightarrow> int" where
  "InLeapYear t = (if DaysInYear (YearFromTime t) = 366 then 1 else 0)"

definition DayWithinYear :: "int \<Rightarrow> int" where
  "DayWithinYear t = Day t - DayFromYear (YearFromTime t)"

definition MonthFromTime :: "int \<Rightarrow> int" where
  "MonthFromTime t =
     (let d = DayWithinYear t; l = InLeapYear t
      in if d < 31 then 0
         else if d < 59 + l then 1
         else if d < 90 + l then 2
         else if d < 120 + l then 3
         else if d < 151 + l then 4
         else if d < 181 + l then 5
         else if d < 212 + l then 6
         else if d < 243 + l then 7
         else if d < 273 + l then 8
         else if d < 304 + l then 9
         else if d < 334 + l then 10
         else 11)"

definition DateFromTime :: "int \<Rightarrow> int" where
  "DateFromTime t =
     (let d = DayWithinYear t; l = InLeapYear t; m = MonthFromTime t
      in if m = 0 then d + 1
         else if m = 1 then d - 30
         else if m = 2 then d - 58 - l
         else if m = 3 then d - 89 - l
         else if m = 4 then d - 119 - l
         else if m = 5 then d - 150 - l
         else if m = 6 then d - 180 - l
         else if m = 7 then d - 211 - l
         else if m = 8 then d - 242 - l
         else if m = 9 then d - 272 - l
         else if m = 10 then d - 303 - l
         else d - 333 - l)"

definition HourFromTime :: "int \<Rightarrow> int" where
  "HourFromTime t = (t div msPerHour) mod 24"

definition MinFromTime :: "int \<Rightarrow> int" where
  "MinFromTime t = (t div msPerMinute) mod 60"

definition SecFromTime :: "int \<Rightarrow> int" where
  "SecFromTime t = (t div msPerSecond) mod 60"

definition getUTCFullYear :: "int \<Rightarrow> real" where
  "getUTCFullYear t = of_int (YearFromTime t)"

definition getUTCMonth :: "int \<Rightarrow> real" where
  "getUTCMonth t = of_int (MonthFromTime t)"

definition getUTCDate :: "int \<Rightarrow> real" where
  "getUTCDate t = of_int (DateFromTime t)"

definition getUTCHours :: "int \<Rightarrow> real" where
  "getUTCHours t = of_int (HourFromTime t)"

definition getUTCMinutes :: "int \<Rightarrow> real" where
  "getUTCMinutes t = of_int (MinFromTime t)"

definition getUTCSeconds :: "int \<Rightarrow> real" where
  "getUTCSeconds t = of_int (SecFromTime t)"

section \<open>The collaborator Angle\<close>

text \<open>
  Modelled from the spec: the constants \<^verbatim>\<open>Angle.DEGREES_TO_RADIANS\<close> and
  \<^verbatim>\<open>Angle.RADIANS_TO_DEGREES\<close> of the module \<^verbatim>\<open>geom/Angle\<close>, which is not among the
  sources. The specification gives them as the plain constants \<open>\<pi>/180\<close> and \<open>180/\<pi>\<close>.
\<close>

definition DEGREES_TO_RADIANS :: real where
  "DEGREES_TO_RADIANS = pi / 180"

definition RADIANS_TO_DEGREES :: real where
  "RADIANS_TO_DEGREES = 180 / pi"

text \<open>
  Modelled from the spec: the function \<^verbatim>\<open>Angle.normalizedDegreesLongitude\<close> of the module
  \<^verbatim>\<open>geom/Angle\<close>, which is not among the sources. The specification calls it
  \<open>normalizeLongitude\<close> and says that it maps any angle to the symmetric range
  \<open>(-180, 180]\<close> by wrap-around, not by clamping: the result is the angle of that range
  that differs from the argument by a whole number of turns.
\<close>

definition normalizedDegreesLongitude :: "real \<Rightarrow> real" where
  "normalizedDegreesLongitude degrees = degrees - 360 * of_int \<lceil>(degrees - 180) / 360\<rceil>"

section \<open>The functions of CelestialProjection\<close>

text \<open>
  Each function returns \<open>Inl\<close> of the error it throws, or \<open>Inr\<close> of its result. The
  checks come first, in the order of the source. A variable that the source assigns a second
  time (\<^verbatim>\<open>year\<close> and \<^verbatim>\<open>month\<close> under \<^verbatim>\<open>month <= 2\<close>, \<^verbatim>\<open>rightAscension\<close> in the
  quadrant correction and in its normalization) has a primed name for its new value. A call
  of \<^verbatim>\<open>this.normalizeAngle\<close> inside another function passes its exception on, as
  the source would.
\<close>

definition normalizeAngle :: "real jsarg \<Rightarrow> error + real" where
  "normalizeAngle angle =
     (case angle of
        Undefined \<Rightarrow> Inl (ArgumentError ''normalizeAngle'' ''missingAngle'')
      | Null \<Rightarrow> Inl (ArgumentError ''normalizeAngle'' ''missingAngle'')
      | Present a \<Rightarrow> Inr (360 * (a / 360 - Math_floor (a / 360))))"

definition computeJulianDate :: "datearg \<Rightarrow> error + real" where
  "computeJulianDate date =
     (case date of
        NonDate \<Rightarrow> Inl (ArgumentError ''computeJulianDate'' ''missingDate'')
      | Date t \<Rightarrow>
          (let year = getUTCFullYear t;
               month = getUTCMonth t + 1;
               day = getUTCDate t;
               hour = getUTCHours t;
               minute = getUTCMinutes t;
               second = getUTCSeconds t;
               dayFraction = (hour + minute / 60 + second / 3600) / 24;
               year' = (if month \<le> 2 then year - 1 else year);
               month' = (if month \<le> 2 then month + 12 else month);
               A = Math_floor (year' / 100);
               B = 2 - A + Math_floor (A / 4);
               JD0h = Math_floor (365.25 * (year' + 4716)) + Math_floor (30.6001 * (month' + 1))
                      + day + B - 1524.5
           in Inr (JD0h + dayFraction)))"

definition computeSunCelestialLocation :: "real jsarg \<Rightarrow> error + celestialLocation" where
  "computeSunCelestialLocation julianDate =
     (case julianDate of
        Undefined \<Rightarrow> Inl (ArgumentError ''computeSunCelestialLocation'' ''missingJulianDate'')
      | Null \<Rightarrow> Inl (ArgumentError ''computeSunCelestialLocation'' ''missingJulianDate'')
      | Present jd \<Rightarrow>
          (let numDays = jd - 2451545
           in case normalizeAngle (Present (280.460 + 0.9856474 * numDays)) of
                Inl e \<Rightarrow> Inl e
              | Inr meanLongitude \<Rightarrow>
           (case normalizeAngle (Present (357.528 + 0.9856003 * numDays)) of
                Inl e \<Rightarrow> Inl e
              | Inr meanAnomalyDeg \<Rightarrow>
           (let meanAnomaly = meanAnomalyDeg * DEGREES_TO_RADIANS;
                eclipticLongitude =
                  meanLongitude + 1.915 * sin meanAnomaly + 0.02 * sin (2 * meanAnomaly);
                eclipticLongitudeRad = eclipticLongitude * DEGREES_TO_RADIANS;
                obliquityOfTheEcliptic = (23.439 - 0.0000004 * numDays) * DEGREES_TO_RADIANS;
                declination =
                  arcsin (sin obliquityOfTheEcliptic * sin eclipticLongitudeRad)
                  * RADIANS_TO_DEGREES;
                rightAscension =
                  arctan (cos obliquityOfTheEcliptic * tan eclipticLongitudeRad)
                  * RADIANS_TO_DEGREES;
                rightAscension' =
                  (if eclipticLongitude \<ge> 90 \<and> eclipticLongitude < 270
                   then rightAscension + 180 else rightAscension)
            in case normalizeAngle (Present rightAscension') of
                 Inl e \<Rightarrow> Inl e
               | Inr rightAscension'' \<Rightarrow>
                   Inr \<lparr>declination = declination, rightAscension = rightAscension''\<rparr>))))"

definition celestialToGeographic ::
  "celestialLocation jsarg \<Rightarrow> real jsarg \<Rightarrow> error + geographicLocation" where
  "celestialToGeographic celestialLocation julianDate =
     (case celestialLocation of
        Undefined \<Rightarrow> Inl (ArgumentError ''celestialToGeographic'' ''missingCelestialLocation'')
      | Null \<Rightarrow> Inl (ArgumentError ''celestialToGeographic'' ''missingCelestialLocation'')
      | Present loc \<Rightarrow>
     (case julianDate of
        Undefined \<Rightarrow> Inl (ArgumentError ''celestialToGeographic'' ''missingJulianDate'')
      | Null \<Rightarrow> Inl (ArgumentError ''celestialToGeographic'' ''missingJulianDate'')
      | Present jd \<Rightarrow>
          (let numDays = jd - 2451545
           in case normalizeAngle (Present (280.46061837 + 360.98564736629 * numDays)) of
                Inl e \<Rightarrow> Inl e
              | Inr GMST \<Rightarrow>
           (case normalizeAngle (Present (GMST - rightAscension loc)) of
                Inl e \<Rightarrow> Inl e
              | Inr GHA \<Rightarrow>
                  Inr \<lparr>latitude = declination loc,
                       longitude = normalizedDegreesLongitude (- GHA)\<rparr>))))"

definition computeSunGeographicLocation :: "datearg \<Rightarrow> error + geographicLocation" where
  "computeSunGeographicLocation date =
     (case date of
        NonDate \<Rightarrow> Inl (ArgumentError ''computeSunGeographicLocation'' ''missingDate'')
      | Date t \<Rightarrow>
          (case computeJulianDate date of
             Inl e \<Rightarrow> Inl e
           | Inr julianDate \<Rightarrow>
          (case computeSunCelestialLocation (Present julianDate) of
             Inl e \<Rightarrow> Inl e
           | Inr celestialLocation \<Rightarrow>
               celestialToGeographic (Present celestialLocation) (Present julianDate))))"

section \<open>Double-precision arithmetic\<close>

text \<open>
  Where a property depends on rounding, the exact arithmetic above is not the program's.
  \<open>binary64 x\<close> is the double nearest to the real \<open>x\<close>, as IEEE 754 rounds the result of
  every operation of a JavaScript Number: to the nearest multiple of the unit in the last
  place of \<open>x\<close> (53 significant bits, the exponent not below -1022), a tie going to the
  even multiple. A value too large for a finite double is outside this model.
\<close>

definition roundTiesToEven :: "real \<Rightarrow> int" where
  "roundTiesToEven r =
     (if r - of_int \<lfloor>r\<rfloor> < 1 / 2 then \<lfloor>r\<rfloor>
      else if 1 / 2 < r - of_int \<lfloor>r\<rfloor> then \<lfloor>r\<rfloor> + 1
      else if even \<lfloor>r\<rfloor> then \<lfloor>r\<rfloor>
      else \<lfloor>r\<rfloor> + 1)"

definition binary64 :: "real \<Rightarrow> real" where
  "binary64 x =
     (if x = 0 then 0
      else let e = max \<lfloor>log 2 \<bar>x\<bar>\<rfloor> (- 1022);
               ulp = 2 powr (of_int e - 52)
           in of_int (roundTiesToEven (x / ulp)) * ulp)"

text \<open>
  \<^verbatim>\<open>normalizeAngle\<close> on doubles: the argument is a double, the literal 360 is one, the
  division, the subtraction and the multiplication round, and \<^verbatim>\<open>Math.floor\<close> is exact.
\<close>

definition normalizeAngle_binary64 :: "real jsarg \<Rightarrow> error + real" where
  "normalizeAngle_binary64 angle =
     (case angle of
        Undefined \<Rightarrow> Inl (ArgumentError ''normalizeAngle'' ''missingAngle'')
      | Null \<Rightarrow> Inl (ArgumentError ''normalizeAngle'' ''missingAngle'')
      | Present a \<Rightarrow>
          Inr (binary64 (360 * binary64 (binary64 (a / 360) - Math_floor (binary64 (a / 360))))))"

section \<open>The specification's formulas\<close>

text \<open>
  The definitions of this section follow the words of the specification, not the source:
  the theorems below compare them with the functions above.
\<close>

text \<open>Section 4.1 of the specification, steps 1 to 5, on the six fields of a date-time.\<close>

definition spec_JulianDateConverter ::
  "real \<Rightarrow> real \<Rightarrow> real \<Rightarrow> real \<Rightarrow> real \<Rightarrow> real \<Rightarrow> real" where
  "spec_JulianDateConverter Y M D hour minute second =
     (let dayFraction = (hour + minute / 60 + second / 3600) / 24;
          Y' = (if M \<le> 2 then Y - 1 else Y);
          M' = (if M \<le> 2 then M + 12 else M);
          A = of_int \<lfloor>Y' / 100\<rfloor>;
          B = 2 - A + of_int \<lfloor>A / 4\<rfloor>;
          JD0h = of_int \<lfloor>365.25 * (Y' + 4716)\<rfloor> + of_int \<lfloor>30.6001 * (M' + 1)\<rfloor> + D + B - 1524.5
      in JD0h + dayFraction)"

text \<open>Section 4.2: the normalized angle.\<close>

definition spec_normalizeAngle :: "real \<Rightarrow> real" where
  "spec_normalizeAngle angle = 360 * (angle / 360 - of_int \<lfloor>angle / 360\<rfloor>)"

text \<open>Section 4.3, steps 1 to 7; angles in degrees.\<close>

definition spec_numDays :: "real \<Rightarrow> real" where
  "spec_numDays julianDate = julianDate - 2451545"

definition spec_meanLongitude :: "real \<Rightarrow> real" where
  "spec_meanLongitude julianDate =
     spec_normalizeAngle (280.460 + 0.9856474 * spec_numDays julianDate)"

definition spec_meanAnomaly :: "real \<Rightarrow> real" where
  "spec_meanAnomaly julianDate =
     spec_normalizeAngle (357.528 + 0.9856003 * spec_numDays julianDate) * (pi / 180)"

definition spec_eclipticLongitude :: "real \<Rightarrow> real" where
  "spec_eclipticLongitude julianDate =
     spec_meanLongitude julianDate + 1.915 * sin (spec_meanAnomaly julianDate)
     + 0.02 * sin (2 * spec_meanAnomaly julianDate)"

definition spec_obliquityOfEcliptic :: "real \<Rightarrow> real" where
  "spec_obliquityOfEcliptic julianDate = 23.439 - 0.0000004 * spec_numDays julianDate"

definition spec_declination :: "real \<Rightarrow> real" where
  "spec_declination julianDate =
     arcsin (sin (spec_obliquityOfEcliptic julianDate * (pi / 180))
             * sin (spec_eclipticLongitude julianDate * (pi / 180))) * (180 / pi)"

definition spec_atanRightAscension :: "real \<Rightarrow> real" where
  "spec_atanRightAscension julianDate =
     arctan (cos (spec_obliquityOfEcliptic julianDate * (pi / 180))
             * tan (spec_eclipticLongitude julianDate * (pi / 180))) * (180 / pi)"

section \<open>Auxiliary notions of the calendar proofs\<close>

text \<open>
  The number of leap days up to and including year \<open>y\<close>, counted from a fixed origin, and
  the leap day of year \<open>y\<close> itself.
\<close>

definition leapDays :: "int \<Rightarrow> int" where
  "leapDays y = y div 4 - y div 100 + y div 400"

definition leap :: "int \<Rightarrow> int" where
  "leap y =
     (if 4 dvd y then 1 else 0) - (if 100 dvd y then 1 else 0) + (if 400 dvd y then 1 else 0)"

text \<open>
  The integer part of \<open>JD0h + 1524.5\<close> in \<^verbatim>\<open>computeJulianDate\<close>, on integers: year
  \<open>y\<close>, month \<open>m\<close> from 1 to 12, day of the month \<open>d\<close>.
\<close>

definition civil_jdn :: "int \<Rightarrow> int \<Rightarrow> int \<Rightarrow> int" where
  "civil_jdn y m d =
     (let y' = (if m \<le> 2 then y - 1 else y);
          m' = (if m \<le> 2 then m + 12 else m)
      in (1461 * (y' + 4716)) div 4 + (306001 * (m' + 1)) div 10000 + d
         + (2 - y' div 100 + y' div 100 div 4))"

section \<open>Integer division\<close>

lemma div_succ_int:
  fixes x n :: int
  assumes "0 < n"
  shows "(x + 1) div n = x div n + (if n dvd (x + 1) then 1 else 0)"
proof (cases "n dvd (x + 1)")
  case True
  then obtain k where k: "x + 1 = n * k" ..
  have "x = n * (k - 1) + (n - 1)" using k by (simp add: algebra_simps)
  then have "x div n = k - 1" by (rule int_div_pos_eq) (use assms in simp_all)
  moreover have "(x + 1) div n = k" using k assms by simp
  ultimately show ?thesis using True by simp
next
  case False
  define r where "r = (x + 1) mod n"
  have "0 \<le> r" "r \<noteq> 0" "r < n"
    using False assms by (simp_all add: r_def dvd_eq_mod_eq_0)
  then have r: "0 < r" "r < n" by simp_all
  have "x + 1 = n * ((x + 1) div n) + r" by (simp add: r_def)
  then have "x = n * ((x + 1) div n) + (r - 1)" by simp
  then have "x div n = (x + 1) div n" by (rule int_div_pos_eq) (use r in simp_all)
  then show ?thesis using False by simp
qed

lemma div_shift_int: "0 < n \<Longrightarrow> (x + n * k) div n = x div n + k" for x n k :: int
  by simp

lemma div_bounds_int:
  fixes x n :: int
  assumes "0 < n"
  shows "n * (x div n) \<le> x" and "x < n * (x div n) + n"
proof -
  have "x = n * (x div n) + x mod n" by simp
  moreover have "0 \<le> x mod n" "x mod n < n" using assms by simp_all
  ultimately show "n * (x div n) \<le> x" and "x < n * (x div n) + n" by linarith+
qed

section \<open>The calendar of the Date accessors\<close>

text \<open>
  The first day of the next year is \<open>DaysInYear\<close> days after that of the year, and the
  day of \<open>t\<close> lies in the year \<open>YearFromTime t\<close>.
\<close>

lemma leapDays_step: "leapDays y = leapDays (y - 1) + leap y"
  using div_succ_int [of 4 "y - 1"] div_succ_int [of 100 "y - 1"] div_succ_int [of 400 "y - 1"]
  by (simp add: leapDays_def leap_def)

lemma DayFromYear_leapDays: "DayFromYear y = 365 * (y - 1970) + leapDays (y - 1) - 477"
  using div_shift_int [of 4 "y - 1" "- 492"] div_shift_int [of 100 "y - 1" "- 19"]
    div_shift_int [of 400 "y - 1" "- 4"]
  by (simp add: DayFromYear_def leapDays_def)

lemma DaysInYear_leap: "DaysInYear y = 365 + leap y"
proof -
  have a: "100 dvd y \<Longrightarrow> 4 dvd y" by (rule dvd_trans [of 4 100 y]) simp_all
  have b: "400 dvd y \<Longrightarrow> 100 dvd y" by (rule dvd_trans [of 100 400 y]) simp_all
  show ?thesis using a b by (auto simp add: DaysInYear_def leap_def mod_eq_0_iff_dvd)
qed

lemma DayFromYear_next: "DayFromYear (y + 1) = DayFromYear y + DaysInYear y"
  using leapDays_step [of y] by (simp add: DayFromYear_leapDays DaysInYear_leap)

lemma DayFromYear_upper: "400 * DayFromYear y \<le> 146097 * (y - 1970) + 589"
  using div_bounds_int(1) [of 4 "y - 1969"] div_bounds_int(2) [of 100 "y - 1901"]
    div_bounds_int(1) [of 400 "y - 1601"]
  by (simp add: DayFromYear_def)

lemma DayFromYear_lower: "146097 * (y - 1970) - 506 \<le> 400 * DayFromYear y"
  using div_bounds_int(2) [of 4 "y - 1969"] div_bounds_int(1) [of 100 "y - 1901"]
    div_bounds_int(2) [of 400 "y - 1601"]
  by (simp add: DayFromYear_def)

lemma YearFromTime_bounds:
  "DayFromYear (YearFromTime t) \<le> Day t \<and> Day t < DayFromYear (YearFromTime t + 1)"
proof -
  define d where "d = Day t"
  define y0 where "y0 = 1970 + (400 * d) div 146097"
  have e: "146097 * (y0 - 1970) \<le> 400 * d" "400 * d < 146097 * (y0 - 1970) + 146097"
    using div_bounds_int [of 146097 "400 * d"] by (simp_all add: y0_def)
  have lo: "DayFromYear (y0 - 1) \<le> d"
    using DayFromYear_upper [of "y0 - 1"] e(1) by simp
  have hi: "d < DayFromYear (y0 + 2)"
    using DayFromYear_lower [of "y0 + 2"] e(2) by simp
  have y: "YearFromTime t =
      (if DayFromYear (y0 + 1) \<le> d then y0 + 1 else if DayFromYear y0 \<le> d then y0 else y0 - 1)"
    by (simp add: YearFromTime_def Let_def d_def y0_def)
  show ?thesis
    unfolding y d_def [symmetric] using lo hi by (simp add: add.assoc)
qed

text \<open>
  \<open>YearFromTime t\<close> is the largest year whose first day, as a time value, is not after
  \<open>t\<close>: the definition of the standard.
\<close>

lemma DaysInYear_ge: "365 \<le> DaysInYear y"
  by (simp add: DaysInYear_def)

lemma DayFromYear_mono: "y \<le> z \<Longrightarrow> DayFromYear y \<le> DayFromYear z"
proof (induction z rule: int_ge_induct)
  case base
  show ?case by simp
next
  case (step i)
  then show ?case using DaysInYear_ge [of i] by (simp add: DayFromYear_next)
qed

lemma DayFromYear_strict_mono: "y < z \<Longrightarrow> DayFromYear y < DayFromYear z"
  using DayFromYear_mono [of "y + 1" z] DaysInYear_ge [of y] by (simp add: DayFromYear_next)

lemma YearFromTime_greatest: "DayFromYear y * msPerDay \<le> t \<longleftrightarrow> y \<le> YearFromTime t"
proof -
  have "DayFromYear y * msPerDay \<le> t \<longleftrightarrow> DayFromYear y \<le> Day t"
    unfolding Day_def msPerDay_def using div_bounds_int [of 86400000 t] by linarith
  also have "\<dots> \<longleftrightarrow> y \<le> YearFromTime t"
  proof
    assume a: "DayFromYear y \<le> Day t"
    show "y \<le> YearFromTime t"
    proof (rule ccontr)
      assume "\<not> y \<le> YearFromTime t"
      then have "YearFromTime t + 1 \<le> y" by simp
      then have "DayFromYear (YearFromTime t + 1) \<le> DayFromYear y" by (rule DayFromYear_mono)
      then show False using a YearFromTime_bounds [of t] by linarith
    qed
  next
    assume "y \<le> YearFromTime t"
    then have "DayFromYear y \<le> DayFromYear (YearFromTime t)" by (rule DayFromYear_mono)
    then show "DayFromYear y \<le> Day t" using YearFromTime_bounds [of t] by linarith
  qed
  finally show ?thesis .
qed

lemma leap_cases: "leap y = 0 \<or> leap y = 1"
proof -
  have a: "100 dvd y \<Longrightarrow> 4 dvd y" by (rule dvd_trans [of 4 100 y]) simp_all
  have b: "400 dvd y \<Longrightarrow> 100 dvd y" by (rule dvd_trans [of 100 400 y]) simp_all
  show ?thesis using a b by (auto simp add: leap_def)
qed

lemma InLeapYear_leap: "InLeapYear t = leap (YearFromTime t)"
  using leap_cases [of "YearFromTime t"] by (auto simp add: InLeapYear_def DaysInYear_leap)

lemma DayWithinYear_bounds:
  "0 \<le> DayWithinYear t" "DayWithinYear t < 365 + InLeapYear t"
  using YearFromTime_bounds [of t]
  by (simp_all add: DayWithinYear_def DayFromYear_next DaysInYear_leap InLeapYear_leap)

lemma MonthFromTime_range: "0 \<le> MonthFromTime t" "MonthFromTime t \<le> 11"
  by (simp_all add: MonthFromTime_def Let_def)

text \<open>
  The date formula on the year, month and day of the accessors gives back the day number,
  shifted by a constant: for January and February it counts from the previous year, for
  the other months the leap day of the year itself enters.
\<close>

lemma year_term: "(1461 * (x + 4716)) div 4 + (2 - x div 100 + x div 100 div 4)
    = 365 * x + leapDays x + 1722521" for x :: int
proof -
  have "(1461 * (x + 4716)) div 4 = (x + 4 * (365 * x + 1722519)) div 4" by (simp add: algebra_simps)
  also have "\<dots> = x div 4 + (365 * x + 1722519)" by (rule div_shift_int) simp
  finally have a: "(1461 * (x + 4716)) div 4 = x div 4 + (365 * x + 1722519)" .
  have b: "x div 100 div 4 = x div 400" using zdiv_zmult2_eq [of 4 x 100] by simp
  show ?thesis by (simp add: a b leapDays_def)
qed

lemma year_term_prev: "(1461 * (y - 1 + 4716)) div 4 + (2 - (y - 1) div 100 + (y - 1) div 100 div 4)
    = DayFromYear y + 2441683"
  by (simp only: year_term DayFromYear_leapDays) simp

lemma year_term_same: "(1461 * (y + 4716)) div 4 + (2 - y div 100 + y div 100 div 4)
    = DayFromYear y + leap y + 2442048"
  using leapDays_step [of y] by (simp only: year_term DayFromYear_leapDays) simp

lemma civil_jdn_early:
  "m \<le> 2 \<Longrightarrow> civil_jdn y m D = DayFromYear y + 2441683 + (306001 * (m + 13)) div 10000 + D"
  using year_term_prev [of y] by (simp add: civil_jdn_def Let_def algebra_simps)

lemma civil_jdn_late:
  "3 \<le> m \<Longrightarrow>
     civil_jdn y m D = DayFromYear y + leap y + 2442048 + (306001 * (m + 1)) div 10000 + D"
  using year_term_same [of y] by (simp add: civil_jdn_def Let_def algebra_simps)

lemma civil_jdn_Day:
  "civil_jdn (YearFromTime t) (MonthFromTime t + 1) (DateFromTime t) = Day t + 2442112"
proof -
  define y where "y = YearFromTime t"
  define w where "w = DayWithinYear t"
  define l where "l = InLeapYear t"
  have d: "Day t = DayFromYear y + w" by (simp add: w_def y_def DayWithinYear_def)
  have l: "l = leap y" by (simp add: l_def y_def InLeapYear_leap)
  have l01: "0 \<le> l" "l \<le> 1" using leap_cases [of y] by (auto simp add: l)
  have m: "MonthFromTime t =
     (if w < 31 then 0 else if w < 59 + l then 1 else if w < 90 + l then 2
      else if w < 120 + l then 3 else if w < 151 + l then 4 else if w < 181 + l then 5
      else if w < 212 + l then 6 else if w < 243 + l then 7 else if w < 273 + l then 8
      else if w < 304 + l then 9 else if w < 334 + l then 10 else 11)"
    by (simp add: MonthFromTime_def Let_def w_def l_def)
  have dt: "DateFromTime t =
     (if MonthFromTime t = 0 then w + 1 else if MonthFromTime t = 1 then w - 30
      else if MonthFromTime t = 2 then w - 58 - l else if MonthFromTime t = 3 then w - 89 - l
      else if MonthFromTime t = 4 then w - 119 - l else if MonthFromTime t = 5 then w - 150 - l
      else if MonthFromTime t = 6 then w - 180 - l else if MonthFromTime t = 7 then w - 211 - l
      else if MonthFromTime t = 8 then w - 242 - l else if MonthFromTime t = 9 then w - 272 - l
      else if MonthFromTime t = 10 then w - 303 - l else w - 333 - l)"
    by (simp add: DateFromTime_def Let_def w_def l_def)
  consider
      (jan) "w < 31"
    | (feb) "31 \<le> w" "w < 59 + l"
    | (mar) "59 + l \<le> w" "w < 90 + l"
    | (apr) "90 + l \<le> w" "w < 120 + l"
    | (may) "120 + l \<le> w" "w < 151 + l"
    | (jun) "151 + l \<le> w" "w < 181 + l"
    | (jul) "181 + l \<le> w" "w < 212 + l"
    | (aug) "212 + l \<le> w" "w < 243 + l"
    | (sep) "243 + l \<le> w" "w < 273 + l"
    | (oct) "273 + l \<le> w" "w < 304 + l"
    | (nov) "304 + l \<le> w" "w < 334 + l"
    | (dec) "334 + l \<le> w"
    by linarith
  then show ?thesis
  proof cases
    case jan
    then have mk: "MonthFromTime t = 0" using l01 by (simp add: m)
    have dk: "DateFromTime t = w + 1" by (simp add: dt mk)
    show ?thesis unfolding y_def [symmetric] mk dk d l by (simp add: civil_jdn_early)
  next
    case feb
    then have mk: "MonthFromTime t = 1" using l01 by (simp add: m)
    have dk: "DateFromTime t = w - 30" by (simp add: dt mk)
    show ?thesis unfolding y_def [symmetric] mk dk d l by (simp add: civil_jdn_early)
  next
    case mar
    then have mk: "MonthFromTime t = 2" using l01 by (simp add: m)
    have dk: "DateFromTime t = w - 58 - l" by (simp add: dt mk)
    show ?thesis unfolding y_def [symmetric] mk dk d l by (simp add: civil_jdn_late)
  next
    case apr
    then have mk: "MonthFromTime t = 3" using l01 by (simp add: m)
    have dk: "DateFromTime t = w - 89 - l" by (simp add: dt mk)
    show ?thesis unfolding y_def [symmetric] mk dk d l by (simp add: civil_jdn_late)
  next
    case may
    then have mk: "MonthFromTime t = 4" using l01 by (simp add: m)
    have dk: "DateFromTime t = w - 119 - l" by (simp add: dt mk)
    show ?thesis unfolding y_def [symmetric] mk dk d l by (simp add: civil_jdn_late)
  next
    case jun
    then have mk: "MonthFromTime t = 5" using l01 by (simp add: m)
    have dk: "DateFromTime t = w - 150 - l" by (simp add: dt mk)
    show ?thesis unfolding y_def [symmetric] mk dk d l by (simp add: civil_jdn_late)
  next
    case jul
    then have mk: "MonthFromTime t = 6" using l01 by (simp add: m)
    have dk: "DateFromTime t = w - 180 - l" by (simp add: dt mk)
    show ?thesis unfolding y_def [symmetric] mk dk d l by (simp add: civil_jdn_late)
  next
    case aug
    then have mk: "MonthFromTime t = 7" using l01 by (simp add: m)
    have dk: "DateFromTime t = w - 211 - l" by (simp add: dt mk)
    show ?thesis unfolding y_def [symmetric] mk dk d l by (simp add: civil_jdn_late)
  next
    case sep
    then have mk: "MonthFromTime t = 8" using l01 by (simp add: m)
    have dk: "DateFromTime t = w - 242 - l" by (simp add: dt mk)
    show ?thesis unfolding y_def [symmetric] mk dk d l by (simp add: civil_jdn_late)
  next
    case oct
    then have mk: "MonthFromTime t = 9" using l01 by (simp add: m)
    have dk: "DateFromTime t = w - 272 - l" by (simp add: dt mk)
    show ?thesis unfolding y_def [symmetric] mk dk d l by (simp add: civil_jdn_late)
  next
    case nov
    then have mk: "MonthFromTime t = 10" using l01 by (simp add: m)
    have dk: "DateFromTime t = w - 303 - l" by (simp add: dt mk)
    show ?thesis unfolding y_def [symmetric] mk dk d l by (simp add: civil_jdn_late)
  next
    case dec
    then have mk: "MonthFromTime t = 11" using l01 by (simp add: m)
    have dk: "DateFromTime t = w - 333 - l" by (simp add: dt mk)
    show ?thesis unfolding y_def [symmetric] mk dk d l by (simp add: civil_jdn_late)
  qed
qed

section \<open>The Julian date in closed form\<close>

text \<open>
  The date formula of \<^verbatim>\<open>computeJulianDate\<close> inverts the calendar of the accessors: the
  result is the number of whole seconds since the epoch, in days, plus the Julian date of the
  epoch. Milliseconds do not enter.
\<close>

lemma time_of_day:
  "3600 * HourFromTime t + 60 * MinFromTime t + SecFromTime t = (t div 1000) mod 86400"
proof -
  define s where "s = t div 1000"
  have h: "t div 3600000 = s div 3600" using zdiv_zmult2_eq [of 3600 t 1000] by (simp add: s_def)
  have m: "t div 60000 = s div 60" using zdiv_zmult2_eq [of 60 t 1000] by (simp add: s_def)
  have a: "s mod 86400 = 3600 * (s div 3600 mod 24) + s mod 3600"
    using zmod_zmult2_eq [of 24 s 3600] by simp
  have b: "s mod 3600 = 60 * (s div 60 mod 60) + s mod 60"
    using zmod_zmult2_eq [of 60 s 60] by simp
  show ?thesis
    unfolding HourFromTime_def MinFromTime_def SecFromTime_def msPerHour_def msPerMinute_def
      msPerSecond_def h m s_def [symmetric] a b by simp
qed

lemma Day_seconds: "Day t = (t div 1000) div 86400"
  using zdiv_zmult2_eq [of 86400 t 1000] by (simp add: Day_def msPerDay_def)

lemma floor_year: "\<lfloor>365.25 * (real_of_int k + 4716)\<rfloor> = (1461 * (k + 4716)) div 4"
proof -
  have "365.25 * (real_of_int k + 4716) = real_of_int (1461 * (k + 4716)) / real_of_int 4"
    by simp
  then show ?thesis by (simp only: floor_divide_of_int_eq)
qed

lemma floor_month: "\<lfloor>30.6001 * (real_of_int k + 1)\<rfloor> = (306001 * (k + 1)) div 10000"
proof -
  have "30.6001 * (real_of_int k + 1) = real_of_int (306001 * (k + 1)) / real_of_int 10000"
    by simp
  then show ?thesis by (simp only: floor_divide_of_int_eq)
qed

lemma floor_div_numeral: "\<lfloor>real_of_int k / 100\<rfloor> = k div 100" "\<lfloor>real_of_int k / 4\<rfloor> = k div 4"
  using floor_divide_of_int_eq [of k 100, where ?'a = real]
    floor_divide_of_int_eq [of k 4, where ?'a = real] by simp_all

lemma computeJulianDate_civil:
  "computeJulianDate (Date t) =
     Inr (real_of_int (civil_jdn (YearFromTime t) (MonthFromTime t + 1) (DateFromTime t)) - 1524.5
          + (real_of_int (HourFromTime t) + real_of_int (MinFromTime t) / 60
             + real_of_int (SecFromTime t) / 3600) / 24)"
proof (cases "MonthFromTime t + 1 \<le> 2")
  case True
  then have r: "real_of_int (MonthFromTime t) + 1 \<le> 2" by linarith
  have y: "real_of_int (YearFromTime t) - 1 = real_of_int (YearFromTime t - 1)" by simp
  have m: "real_of_int (MonthFromTime t) + 1 + 12 + 1 = real_of_int (MonthFromTime t + 1 + 12) + 1"
    by simp
  show ?thesis
    unfolding computeJulianDate_def datearg.case Let_def getUTCFullYear_def getUTCMonth_def
      getUTCDate_def getUTCHours_def getUTCMinutes_def getUTCSeconds_def Math_floor_def
      civil_jdn_def if_P [OF True] if_P [OF r] y m floor_year floor_month floor_div_numeral
    by simp
next
  case False
  then have r: "\<not> real_of_int (MonthFromTime t) + 1 \<le> 2" by linarith
  have m: "real_of_int (MonthFromTime t) + 1 + 1 = real_of_int (MonthFromTime t + 1) + 1"
    by simp
  show ?thesis
    unfolding computeJulianDate_def datearg.case Let_def getUTCFullYear_def getUTCMonth_def
      getUTCDate_def getUTCHours_def getUTCMinutes_def getUTCSeconds_def Math_floor_def
      civil_jdn_def if_not_P [OF False] if_not_P [OF r] m floor_year floor_month floor_div_numeral
    by simp
qed

lemma computeJulianDate_closed_form:
  "computeJulianDate (Date t) = Inr (2440587.5 + real_of_int (t div 1000) / 86400)"
proof -
  define s where "s = t div 1000"
  have tod: "real_of_int (HourFromTime t) * 3600 + real_of_int (MinFromTime t) * 60
      + real_of_int (SecFromTime t) = real_of_int (s mod 86400)"
    using time_of_day [of t, THEN arg_cong, of real_of_int] by (simp add: s_def)
  have "real_of_int s = real_of_int (86400 * (s div 86400) + s mod 86400)" by simp
  then have s: "real_of_int s = 86400 * real_of_int (s div 86400) + real_of_int (s mod 86400)"
    by (simp only: of_int_add of_int_mult of_int_numeral)
  have "(real_of_int (HourFromTime t) + real_of_int (MinFromTime t) / 60
             + real_of_int (SecFromTime t) / 3600) / 24 = real_of_int (s mod 86400) / 86400"
    unfolding tod [symmetric] by simp
  then show ?thesis
    unfolding computeJulianDate_civil civil_jdn_Day Day_seconds s_def [symmetric]
    using s by simp
qed

section \<open>Angles and the solar position\<close>

lemma normalizeAngle_Present: "normalizeAngle (Present a) = Inr (spec_normalizeAngle a)"
  by (simp add: normalizeAngle_def Math_floor_def spec_normalizeAngle_def)

lemma computeSunCelestialLocation_Present:
  "computeSunCelestialLocation (Present jd) =
     Inr \<lparr>declination = spec_declination jd,
          rightAscension = spec_normalizeAngle
            (if 90 \<le> spec_eclipticLongitude jd \<and> spec_eclipticLongitude jd < 270
             then spec_atanRightAscension jd + 180 else spec_atanRightAscension jd)\<rparr>"
  by (simp add: computeSunCelestialLocation_def normalizeAngle_Present Let_def
      DEGREES_TO_RADIANS_def RADIANS_TO_DEGREES_def spec_declination_def
      spec_atanRightAscension_def spec_eclipticLongitude_def spec_meanAnomaly_def
      spec_meanLongitude_def spec_obliquityOfEcliptic_def spec_numDays_def)

lemma spec_normalizeAngle_alt: "spec_normalizeAngle a = a - 360 * real_of_int \<lfloor>a / 360\<rfloor>"
  by (simp add: spec_normalizeAngle_def algebra_simps)

lemma spec_normalizeAngle_range: "0 \<le> spec_normalizeAngle a" "spec_normalizeAngle a < 360"
proof -
  define q where "q = real_of_int \<lfloor>a / 360\<rfloor>"
  have q: "q \<le> a / 360" "a / 360 < q + 1" unfolding q_def by linarith+
  show "0 \<le> spec_normalizeAngle a"
    unfolding spec_normalizeAngle_alt q_def [symmetric] using q(1) by linarith
  show "spec_normalizeAngle a < 360"
    unfolding spec_normalizeAngle_alt q_def [symmetric] using q(2) by linarith
qed

lemma spec_normalizeAngle_half_turn: "spec_normalizeAngle (a + 180) \<noteq> spec_normalizeAngle a"
proof
  assume eq: "spec_normalizeAngle (a + 180) = spec_normalizeAngle a"
  define k where "k = \<lfloor>(a + 180) / 360\<rfloor> - \<lfloor>a / 360\<rfloor>"
  define p q where "p = real_of_int \<lfloor>(a + 180) / 360\<rfloor>" and "q = real_of_int \<lfloor>a / 360\<rfloor>"
  have "a + 180 - 360 * p = a - 360 * q"
    using eq by (simp only: spec_normalizeAngle_alt p_def q_def)
  then have "p * 2 - q * 2 = 1" by linarith
  then have "real_of_int k * 2 = 1" by (simp add: k_def p_def q_def algebra_simps)
  then have "real_of_int (k * 2) = real_of_int 1" by simp
  then have "k * 2 = 1" by (simp only: of_int_eq_iff)
  then show False by presburger
qed

text \<open>
  In exact arithmetic the declination is bounded by the obliquity and by 90 degrees. (In
  double precision the first bound can be exceeded in the last place.)
\<close>

lemma arcsin_product_bound:
  fixes e l :: real
  shows "\<bar>arcsin (sin e * sin l)\<bar> \<le> \<bar>e\<bar>" and "\<bar>arcsin (sin e * sin l)\<bar> \<le> pi / 2"
proof -
  define s where "s = sin e * sin l"
  have "\<bar>s\<bar> = \<bar>sin e\<bar> * \<bar>sin l\<bar>" by (simp add: s_def abs_mult)
  also have "\<dots> \<le> \<bar>sin e\<bar> * 1" by (rule mult_left_mono) simp_all
  finally have s: "\<bar>s\<bar> \<le> \<bar>sin e\<bar>" by simp
  have s1: "- 1 \<le> s" "s \<le> 1" using s abs_sin_le_one [of e] by linarith+
  show half: "\<bar>arcsin (sin e * sin l)\<bar> \<le> pi / 2"
    using arcsin_bounded [OF s1] unfolding s_def by linarith
  show "\<bar>arcsin (sin e * sin l)\<bar> \<le> \<bar>e\<bar>"
  proof (cases "\<bar>e\<bar> \<le> pi / 2")
    case False
    then show ?thesis using half by linarith
  next
    case True
    then have e: "- (pi / 2) \<le> \<bar>e\<bar>" "\<bar>e\<bar> \<le> pi / 2" by simp_all
    have "0 \<le> sin \<bar>e\<bar>" using True by (intro sin_ge_zero) (simp, linarith)
    moreover have "\<bar>sin \<bar>e\<bar>\<bar> = \<bar>sin e\<bar>" by (cases "0 \<le> e") simp_all
    ultimately have se: "sin \<bar>e\<bar> = \<bar>sin e\<bar>" by simp
    have up: "arcsin s \<le> \<bar>e\<bar>"
    proof -
      have "arcsin s \<le> arcsin (sin \<bar>e\<bar>)"
        by (rule arcsin_le_arcsin) (use s s1 se in simp_all)
      then show ?thesis by (simp add: arcsin_sin [OF e])
    qed
    have lo: "- \<bar>e\<bar> \<le> arcsin s"
    proof -
      have "arcsin (- sin \<bar>e\<bar>) \<le> arcsin s"
        by (rule arcsin_le_arcsin) (use s s1 se in simp_all)
      then show ?thesis by (simp add: arcsin_minus arcsin_sin [OF e])
    qed
    show ?thesis using up lo by (simp add: s_def abs_le_iff)
  qed
qed

lemma spec_declination_bound:
  "\<bar>spec_declination jd\<bar> \<le> \<bar>spec_obliquityOfEcliptic jd\<bar>" "\<bar>spec_declination jd\<bar> \<le> 90"
proof -
  define e where "e = spec_obliquityOfEcliptic jd * (pi / 180)"
  define l where "l = spec_eclipticLongitude jd * (pi / 180)"
  have d: "\<bar>spec_declination jd\<bar> = \<bar>arcsin (sin e * sin l)\<bar> * (180 / pi)"
    by (simp add: spec_declination_def e_def l_def abs_mult)
  have "\<bar>arcsin (sin e * sin l)\<bar> * (180 / pi) \<le> \<bar>e\<bar> * (180 / pi)"
    by (rule mult_right_mono [OF arcsin_product_bound(1)]) simp
  also have "\<dots> = \<bar>spec_obliquityOfEcliptic jd\<bar>" by (simp add: e_def abs_mult)
  finally show "\<bar>spec_declination jd\<bar> \<le> \<bar>spec_obliquityOfEcliptic jd\<bar>" by (simp only: d)
  have "\<bar>arcsin (sin e * sin l)\<bar> * (180 / pi) \<le> pi / 2 * (180 / pi)"
    by (rule mult_right_mono [OF arcsin_product_bound(2)]) simp
  also have "\<dots> = 90" by simp
  finally show "\<bar>spec_declination jd\<bar> \<le> 90" by (simp only: d)
qed

lemma equation_of_centre_bound:
  "\<bar>1.915 * sin m + 0.02 * sin (2 * m)\<bar> \<le> (1.935 :: real)"
proof -
  have "\<bar>sin m\<bar> \<le> 1" "\<bar>sin (2 * m)\<bar> \<le> 1" by (rule abs_sin_le_one)+
  then have "\<bar>1915 / 1000 * sin m + 2 / 100 * sin (2 * m)\<bar> \<le> 1935 / 1000" by linarith
  then show ?thesis by simp
qed

lemma spec_eclipticLongitude_near:
  "\<bar>spec_eclipticLongitude jd - spec_meanLongitude jd\<bar> \<le> 1.935"
  using equation_of_centre_bound [of "spec_meanAnomaly jd"]
  by (simp add: spec_eclipticLongitude_def)

lemma far_meanLongitude: "spec_meanLongitude (- 163950955) = 288.9815"
proof -
  have "\<lfloor>(280.460 + 0.9856474 * (- 163950955 - 2451545)) / 360 :: real\<rfloor> = - 455595"
    by (simp add: floor_eq_iff)
  then show ?thesis
    by (simp add: spec_meanLongitude_def spec_numDays_def spec_normalizeAngle_alt)
qed

lemma far_obliquity: "spec_obliquityOfEcliptic (- 163950955) = 90"
  by (simp add: spec_obliquityOfEcliptic_def spec_numDays_def)

lemma far_declination: "spec_declination (- 163950955) = spec_eclipticLongitude (- 163950955) - 360"
proof -
  define l where "l = spec_eclipticLongitude (- 163950955)"
  have "\<bar>l - 2889815 / 10000\<bar> \<le> 1935 / 1000"
    using spec_eclipticLongitude_near [of "- 163950955"]
    by (simp add: far_meanLongitude l_def)
  then have l: "287 \<le> l" "l \<le> 291" by linarith+
  have e: "l * (pi / 180) = (l - 360) * (pi / 180) + 2 * pi" by (simp add: algebra_simps)
  have s: "sin (l * (pi / 180)) = sin ((l - 360) * (pi / 180))"
    by (subst e) (rule sin_periodic)
  have lo: "- (pi / 2) \<le> (l - 360) * (pi / 180)"
  proof -
    have "- 90 * (pi / 180) \<le> (l - 360) * (pi / 180)"
      by (rule mult_right_mono) (use l in simp_all)
    then show ?thesis by simp
  qed
  have hi: "(l - 360) * (pi / 180) \<le> pi / 2"
  proof -
    have "(l - 360) * (pi / 180) \<le> 90 * (pi / 180)"
      by (rule mult_right_mono) (use l in simp_all)
    then show ?thesis by simp
  qed
  have q: "sin (90 * (pi / 180)) = 1"
  proof -
    have "90 * (pi / 180) = pi / 2" by simp
    then show ?thesis by (simp only: sin_pi_half)
  qed
  have "spec_declination (- 163950955) = arcsin (sin ((l - 360) * (pi / 180))) * (180 / pi)"
    by (simp only: spec_declination_def far_obliquity l_def [symmetric] s q mult_1)
  also have "\<dots> = (l - 360) * (pi / 180) * (180 / pi)" by (simp only: arcsin_sin [OF lo hi])
  also have "\<dots> = l - 360" by simp
  finally show ?thesis by (simp only: l_def)
qed

lemma celestialToGeographic_Present:
  "celestialToGeographic (Present loc) (Present jd) =
     Inr \<lparr>latitude = declination loc,
          longitude = normalizedDegreesLongitude
            (- spec_normalizeAngle
                 (spec_normalizeAngle (280.46061837 + 360.98564736629 * (jd - 2451545))
                  - rightAscension loc))\<rparr>"
  by (simp add: celestialToGeographic_def normalizeAngle_Present Let_def)



text \<open>
  The quadrant correction, in exact arithmetic: the right ascension returned is the
  normalized angle of the arc tangent plus 180 exactly when the ecliptic longitude
  \<open>meanLongitude + 1.915 * sin meanAnomaly + 0.02 * sin (2 * meanAnomaly)\<close>, as computed
  and not normalized, is at least 90 and less than 270, and that of the arc tangent alone
  exactly otherwise.
\<close>

lemma quadrant_correction_exact:
  "\<exists>loc. computeSunCelestialLocation (Present jd) = Inr loc
      \<and> (normalizeAngle (Present (spec_atanRightAscension jd + 180)) = Inr (rightAscension loc)
          \<longleftrightarrow> 90 \<le> spec_eclipticLongitude jd \<and> spec_eclipticLongitude jd < 270)
      \<and> (normalizeAngle (Present (spec_atanRightAscension jd)) = Inr (rightAscension loc)
          \<longleftrightarrow> \<not> (90 \<le> spec_eclipticLongitude jd \<and> spec_eclipticLongitude jd < 270))"
proof -
  define ra where "ra = spec_normalizeAngle
     (if 90 \<le> spec_eclipticLongitude jd \<and> spec_eclipticLongitude jd < 270
      then spec_atanRightAscension jd + 180 else spec_atanRightAscension jd)"
  define loc where "loc = \<lparr>declination = spec_declination jd, rightAscension = ra\<rparr>"
  have 1: "computeSunCelestialLocation (Present jd) = Inr loc"
    by (simp only: computeSunCelestialLocation_Present loc_def ra_def)
  have r: "rightAscension loc = ra" by (simp add: loc_def)
  have 2: "normalizeAngle (Present (spec_atanRightAscension jd + 180)) = Inr (rightAscension loc)
      \<longleftrightarrow> 90 \<le> spec_eclipticLongitude jd \<and> spec_eclipticLongitude jd < 270"
    using spec_normalizeAngle_half_turn [of "spec_atanRightAscension jd"]
    by (simp add: normalizeAngle_Present r ra_def)
  have 3: "normalizeAngle (Present (spec_atanRightAscension jd)) = Inr (rightAscension loc)
      \<longleftrightarrow> \<not> (90 \<le> spec_eclipticLongitude jd \<and> spec_eclipticLongitude jd < 270)"
    using spec_normalizeAngle_half_turn [of "spec_atanRightAscension jd"]
    by (auto simp add: normalizeAngle_Present r ra_def)
  show ?thesis using 1 2 3 by blast
qed

section \<open>Rounding to a double\<close>

text \<open>
  The rounded value is within half a unit in the last place of the value, so within the
  fraction \<open>2 powr (- 53)\<close> of it; a value with 53 significant bits is not changed.
\<close>

lemma roundTiesToEven_error: "\<bar>real_of_int (roundTiesToEven r) - r\<bar> \<le> 1 / 2"
proof -
  have "real_of_int \<lfloor>r\<rfloor> \<le> r" "r < real_of_int \<lfloor>r\<rfloor> + 1" by linarith+
  then show ?thesis unfolding roundTiesToEven_def by (auto simp add: abs_le_iff)
qed

lemma roundTiesToEven_of_int: "roundTiesToEven (real_of_int k) = k"
  by (simp add: roundTiesToEven_def)

lemma roundTiesToEven_up:
  assumes "real_of_int k - 1 / 2 < r" "r \<le> real_of_int k"
  shows "roundTiesToEven r = k"
proof (cases "r = real_of_int k")
  case True
  then show ?thesis by (simp add: roundTiesToEven_of_int)
next
  case False
  then have "\<lfloor>r\<rfloor> = k - 1" using assms by (simp add: floor_eq_iff)
  then show ?thesis using assms unfolding roundTiesToEven_def by simp
qed

lemma binary64_normal:
  assumes "2 powr real_of_int k \<le> \<bar>x\<bar>" "\<bar>x\<bar> < 2 powr (real_of_int k + 1)" "- 1022 \<le> k"
  shows "binary64 x
    = real_of_int (roundTiesToEven (x / 2 powr (real_of_int k - 52))) * 2 powr (real_of_int k - 52)"
proof -
  have "0 < 2 powr real_of_int k" by simp
  then have x: "0 < \<bar>x\<bar>" using assms(1) by linarith
  then have "\<lfloor>log 2 \<bar>x\<bar>\<rfloor> = k"
    using assms(1,2) by (simp add: floor_log_eq_powr_iff)
  then show ?thesis using x assms(3) by (simp add: binary64_def Let_def max_def)
qed

lemma binary64_relative_error:
  assumes "2 powr (- 1022) \<le> \<bar>x\<bar>"
  shows "\<bar>binary64 x - x\<bar> \<le> 2 powr (- 53) * \<bar>x\<bar>"
proof -
  have x: "0 < \<bar>x\<bar>" using assms powr_gt_zero [of 2 "- 1022"] by linarith
  define k where "k = \<lfloor>log 2 \<bar>x\<bar>\<rfloor>"
  have k: "2 powr real_of_int k \<le> \<bar>x\<bar>" "\<bar>x\<bar> < 2 powr (real_of_int k + 1)"
    using x floor_log_eq_powr_iff [of "\<bar>x\<bar>" 2 k] by (simp_all add: k_def)
  have "2 powr (- 1022) < 2 powr (real_of_int k + 1)" using assms k(2) by linarith
  then have "- 1022 < real_of_int k + 1" by simp
  then have k3: "- 1022 \<le> k" by linarith
  define u where "u = 2 powr (real_of_int k - 52)"
  have u: "0 < u" by (simp add: u_def)
  have b: "binary64 x = real_of_int (roundTiesToEven (x / u)) * u"
    unfolding u_def by (rule binary64_normal [OF k k3])
  have "binary64 x - x = (real_of_int (roundTiesToEven (x / u)) - x / u) * u"
    using u by (simp add: b left_diff_distrib)
  then have "\<bar>binary64 x - x\<bar> = \<bar>real_of_int (roundTiesToEven (x / u)) - x / u\<bar> * u"
    using u by (simp only: abs_mult abs_of_pos)
  also have "\<dots> \<le> 1 / 2 * u"
    by (rule mult_right_mono [OF roundTiesToEven_error]) (use u in simp)
  also have "\<dots> = 2 powr (- 53) * 2 powr real_of_int k"
    by (simp add: u_def powr_diff powr_minus field_simps)
  also have "\<dots> \<le> 2 powr (- 53) * \<bar>x\<bar>"
    by (rule mult_left_mono [OF k(1)]) simp
  finally show ?thesis .
qed

lemma binary64_exact:
  assumes "2 powr real_of_int k \<le> \<bar>x\<bar>" "\<bar>x\<bar> < 2 powr (real_of_int k + 1)" "- 1022 \<le> k"
    and "x / 2 powr (real_of_int k - 52) = real_of_int m"
  shows "binary64 x = x"
proof -
  have "binary64 x = real_of_int m * 2 powr (real_of_int k - 52)"
    by (simp only: binary64_normal [OF assms(1-3)] assms(4) roundTiesToEven_of_int)
  also have "\<dots> = x" by (simp add: assms(4) [symmetric])
  finally show ?thesis .
qed

lemma binary64_360: "binary64 360 = 360"
proof -
  have "binary64 360
      = real_of_int (roundTiesToEven (360 / 2 powr (real_of_int 8 - 52))) * 2 powr (real_of_int 8 - 52)"
    by (rule binary64_normal) simp_all
  moreover have "360 / 2 powr (real_of_int 8 - 52) = real_of_int (360 * 2 ^ 44)"
    by (simp add: powr_neg_numeral)
  ultimately show ?thesis by (simp only: roundTiesToEven_of_int) (simp add: powr_neg_numeral)
qed

lemma binary64_just_below_1:
  assumes "1 - 2 powr (- 54) < y" "y < 1"
  shows "binary64 y = 1"
proof -
  have y: "1 - 1 / 2 ^ 54 < y" using assms(1) by (simp add: powr_neg_numeral)
  have h: "(1 :: real) / 2 \<le> 1 - 1 / 2 ^ 54" by simp
  have "binary64 y
      = real_of_int (roundTiesToEven (y / 2 powr (real_of_int (- 1) - 52)))
        * 2 powr (real_of_int (- 1) - 52)"
    by (rule binary64_normal) (use y h assms(2) in simp_all)
  then have b: "binary64 y = real_of_int (roundTiesToEven (y * 2 ^ 53)) / 2 ^ 53"
    by (simp add: powr_neg_numeral)
  have "roundTiesToEven (y * 2 ^ 53) = 2 ^ 53"
  proof (rule roundTiesToEven_up)
    have "(1 - 1 / 2 ^ 54) * 2 ^ 53 < y * 2 ^ 53" using y by (simp only: mult_less_cancel_right_pos zero_less_power zero_less_numeral)
    then show "real_of_int (2 ^ 53) - 1 / 2 < y * 2 ^ 53" by simp
    have "y * 2 ^ 53 < 1 * 2 ^ 53" using assms(2) by (simp only: mult_less_cancel_right_pos zero_less_power zero_less_numeral)
    then show "y * 2 ^ 53 \<le> real_of_int (2 ^ 53)" by simp
  qed
  then show ?thesis by (simp add: b)
qed

text \<open>
  \<^verbatim>\<open>normalizeAngle\<close> on doubles. Of a negative angle of magnitude at most
  \<open>2 powr (- 46)\<close>, the quotient by 360 is above \<open>- (2 powr (- 54))\<close>, its floor is -1,
  and the difference of the two rounds to 1: the result is 360. The angles -90 and
  \<open>10 ^ 17\<close> are doubles; the first gives 270, the second 281.25 (in exact arithmetic, 280).
\<close>

lemma normalizeAngle_binary64_tiny_negative:
  assumes "- (2 powr (- 46)) \<le> a" "a \<le> - (2 powr (- 100))"
  shows "normalizeAngle_binary64 (Present a) = Inr 360"
proof -
  define q where "q = binary64 (a / 360)"
  have a: "- (1 / 2 ^ 46) \<le> a" "a \<le> - (1 / 2 ^ 100)"
    using assms by (simp_all add: powr_neg_numeral)
  have "(2 :: real) powr (- 1022) \<le> 1 / 2 ^ 100 / 360" by (simp add: powr_neg_numeral)
  also have "\<dots> \<le> \<bar>a / 360\<bar>" using a by simp
  finally have "\<bar>q - a / 360\<bar> \<le> 2 powr (- 53) * \<bar>a / 360\<bar>"
    unfolding q_def by (rule binary64_relative_error)
  then have "\<bar>q - a / 360\<bar> \<le> 1 / 2 ^ 53 * (- a / 360)"
    using a by (simp add: powr_neg_numeral)
  then have e: "\<bar>q - a / 360\<bar> \<le> (- a / 360) / 9007199254740992" by simp
  have b: "- (1 / 70368744177664) \<le> a" "a \<le> - (1 / 1267650600228229401496703205376)"
    using a by simp_all
  have "- (1 / 18014398509481984) < q" using e b by linarith
  moreover have "q < 0" using e b by linarith
  ultimately have q: "- (1 / 2 ^ 54) < q" "q < 0" by simp_all
  have "\<lfloor>q\<rfloor> = - 1"
  proof (rule floor_unique)
    show "real_of_int (- 1) \<le> q" using \<open>- (1 / 18014398509481984) < q\<close> by simp
    show "q < real_of_int (- 1) + 1" using q(2) by simp
  qed
  then have f: "Math_floor q = - 1" by (simp add: Math_floor_def)
  have "1 - 2 powr (- 54) < q - Math_floor q" "q - Math_floor q < 1"
    using q by (simp_all add: f powr_neg_numeral)
  then have "binary64 (q - Math_floor q) = 1" by (rule binary64_just_below_1)
  then show ?thesis
    by (simp add: normalizeAngle_binary64_def q_def [symmetric] binary64_360)
qed

lemma normalizeAngle_binary64_minus_90: "normalizeAngle_binary64 (Present (- 90)) = Inr 270"
proof -
  have a: "- 90 / 360 = - (1 / 4 :: real)" by simp
  have q: "binary64 (- (1 / 4)) = - (1 / 4)"
    using binary64_exact [of "- 2" "- (1 / 4)" "- (2 ^ 52)"] by (simp add: powr_neg_numeral)
  have f: "Math_floor (- (1 / 4)) = - 1" by (simp add: Math_floor_def floor_eq_iff)
  have s: "- (1 / 4) - (- 1) = (3 / 4 :: real)" by simp
  have d: "binary64 (3 / 4) = 3 / 4"
    using binary64_exact [of "- 1" "3 / 4" "3 * 2 ^ 51"] by (simp add: powr_neg_numeral)
  have m: "360 * (3 / 4) = (270 :: real)" by simp
  have r: "binary64 270 = 270"
    using binary64_exact [of 8 270 "270 * 2 ^ 44"] by (simp add: powr_neg_numeral)
  show ?thesis
    unfolding normalizeAngle_binary64_def jsarg.case a q f s d m r ..
qed

lemma binary64_1e17: "binary64 (10 ^ 17) = 10 ^ 17"
  using binary64_exact [of 56 "10 ^ 17" "6250000000000000"] by (simp add: powr_neg_numeral)

lemma normalizeAngle_binary64_1e17:
  "normalizeAngle_binary64 (Present (10 ^ 17)) = Inr 281.25"
proof -
  have "binary64 (10 ^ 17 / 360)
      = real_of_int (roundTiesToEven (10 ^ 17 / 360 / 2 powr (real_of_int 47 - 52)))
        * 2 powr (real_of_int 47 - 52)"
    by (rule binary64_normal) simp_all
  moreover have "roundTiesToEven (10 ^ 17 / 360 / 2 powr (real_of_int 47 - 52)) = 8888888888888889"
    by (rule roundTiesToEven_up) (simp_all add: powr_neg_numeral)
  ultimately have q: "binary64 (10 ^ 17 / 360) = 8888888888888889 / 32"
    by (simp add: powr_neg_numeral)
  have "\<lfloor>8888888888888889 / 32 :: real\<rfloor> = 277777777777777" by (simp add: floor_eq_iff)
  then have f: "Math_floor (8888888888888889 / 32) = 277777777777777"
    by (simp add: Math_floor_def)
  have s: "8888888888888889 / 32 - 277777777777777 = (25 / 32 :: real)" by simp
  have d: "binary64 (25 / 32) = 25 / 32"
    using binary64_exact [of "- 1" "25 / 32" "25 * 2 ^ 48"] by (simp add: powr_neg_numeral)
  have m: "360 * (25 / 32) = (281.25 :: real)" by simp
  have r: "binary64 281.25 = 281.25"
    using binary64_exact [of 8 "281.25" "1125 * 2 ^ 42"] by (simp add: powr_neg_numeral)
  show ?thesis
    unfolding normalizeAngle_binary64_def jsarg.case q f s d m r ..
qed

section \<open>The claims\<close>

text \<open>
  C1. For every valid Date, \<^verbatim>\<open>computeSunGeographicLocation\<close> is the composition of the three
  stages on one Julian date: \<^verbatim>\<open>computeJulianDate\<close> returns a Julian date,
  \<^verbatim>\<open>computeSunCelestialLocation\<close> returns a celestial location for it, and the result is
  that of \<^verbatim>\<open>celestialToGeographic\<close> on this location and the same Julian date; no stage
  raises.
\<close>

theorem computeSunGeographicLocation_composition:
  "\<exists>julianDate celestialLocation.
      computeJulianDate (Date t) = Inr julianDate
    \<and> computeSunCelestialLocation (Present julianDate) = Inr celestialLocation
    \<and> computeSunGeographicLocation (Date t)
        = celestialToGeographic (Present celestialLocation) (Present julianDate)
    \<and> \<not> isl (computeSunGeographicLocation (Date t))"
  by (simp add: computeSunGeographicLocation_def computeJulianDate_closed_form
      computeSunCelestialLocation_Present celestialToGeographic_Present)

text \<open>
  C3. \<^verbatim>\<open>normalizeAngle\<close> does not keep its result below 360: on the double of the
  literal \<^verbatim>\<open>-1e-20\<close> it returns exactly 360, where the claim and the documentation of
  the function (between 0.0 inclusive and 360.0 exclusive) say less than 360.
\<close>

theorem normalizeAngle_returns_360:
  "normalizeAngle_binary64 (Present (binary64 (- (1 / 10 ^ 20)))) = Inr 360"
proof (rule normalizeAngle_binary64_tiny_negative)
  define a where "a = binary64 (- (1 / 10 ^ 20))"
  have "(2 :: real) powr (- 1022) \<le> \<bar>- (1 / 10 ^ 20)\<bar>" by (simp add: powr_neg_numeral)
  then have "\<bar>a - (- (1 / 10 ^ 20))\<bar> \<le> 2 powr (- 53) * \<bar>- (1 / 10 ^ 20)\<bar>"
    unfolding a_def by (rule binary64_relative_error)
  then have e: "\<bar>a + 1 / 100000000000000000000\<bar>
      \<le> 1 / 9007199254740992 * (1 / 100000000000000000000)"
    by (simp add: powr_neg_numeral)
  have "- (1 / 70368744177664) \<le> a" using e by linarith
  moreover have "a \<le> - (1 / 1267650600228229401496703205376)" using e by linarith
  ultimately have "- (1 / 2 ^ 46) \<le> a" "a \<le> - (1 / 2 ^ 100)" by simp_all
  then show "- (2 powr (- 46)) \<le> binary64 (- (1 / 10 ^ 20))"
    and "binary64 (- (1 / 10 ^ 20)) \<le> - (2 powr (- 100))"
    by (simp_all add: a_def powr_neg_numeral)
qed

text \<open>
  C4. For every valid Date, \<^verbatim>\<open>computeJulianDate\<close> returns what the formula of the
  specification gives on the UTC fields of the date (with the month counted from 1):
  the day fraction \<open>(hour + minute/60 + second/3600)/24\<close>, the year and month adjusted by
  \<open>Y - 1\<close> and \<open>M + 12\<close> when \<open>M \<le> 2\<close>, \<open>B = 2 - floor (Y/100) +
  floor (floor (Y/100)/4)\<close> and \<open>JD0h = floor (365.25 * (Y + 4716)) +
  floor (30.6001 * (M + 1)) + D + B - 1524.5\<close>. The months with \<open>M \<le> 2\<close> are January
  and February, which \<^verbatim>\<open>getUTCMonth\<close> gives as 0 and 1.
\<close>

theorem computeJulianDate_formula:
  "computeJulianDate (Date t) =
     Inr (spec_JulianDateConverter (getUTCFullYear t) (getUTCMonth t + 1) (getUTCDate t)
            (getUTCHours t) (getUTCMinutes t) (getUTCSeconds t))
   \<and> (getUTCMonth t + 1 \<le> 2 \<longleftrightarrow> getUTCMonth t = 0 \<or> getUTCMonth t = 1)"
proof -
  have i: "MonthFromTime t \<le> 1 \<longleftrightarrow> MonthFromTime t = 0 \<or> MonthFromTime t = 1"
    using MonthFromTime_range(1) [of t] by linarith
  have a: "getUTCMonth t + 1 \<le> 2 \<longleftrightarrow> MonthFromTime t \<le> 1" by (simp add: getUTCMonth_def)
  have b: "getUTCMonth t = 0 \<longleftrightarrow> MonthFromTime t = 0" by (simp add: getUTCMonth_def)
  have c: "getUTCMonth t = 1 \<longleftrightarrow> MonthFromTime t = 1" by (simp add: getUTCMonth_def)
  have "computeJulianDate (Date t) =
     Inr (spec_JulianDateConverter (getUTCFullYear t) (getUTCMonth t + 1) (getUTCDate t)
            (getUTCHours t) (getUTCMinutes t) (getUTCSeconds t))"
    by (simp add: computeJulianDate_def spec_JulianDateConverter_def Let_def Math_floor_def)
  then show ?thesis unfolding a b c using i by blast
qed

text \<open>
  C5, as the source has it. For every Julian date, the declination that
  \<^verbatim>\<open>computeSunCelestialLocation\<close> returns is
  \<open>asin (sin obliquity * sin eclipticLongitude)\<close> in degrees, with the obliquity
  \<open>23.439 - 0.0000004 * (jd - 2451545)\<close>; its magnitude is at most 90, and it lies between
  -23.5 and 23.5 whenever the obliquity does.
\<close>

theorem declination_within_obliquity_interval:
  "\<exists>loc. computeSunCelestialLocation (Present jd) = Inr loc
      \<and> declination loc
          = arcsin (sin ((23.439 - 0.0000004 * (jd - 2451545)) * (pi / 180))
                    * sin (spec_eclipticLongitude jd * (pi / 180))) * (180 / pi)
      \<and> \<bar>declination loc\<bar> \<le> 90
      \<and> (\<bar>23.439 - 0.0000004 * (jd - 2451545)\<bar> \<le> 23.5 \<longrightarrow> \<bar>declination loc\<bar> \<le> 23.5)"
proof -
  define ra where "ra = spec_normalizeAngle
     (if 90 \<le> spec_eclipticLongitude jd \<and> spec_eclipticLongitude jd < 270
      then spec_atanRightAscension jd + 180 else spec_atanRightAscension jd)"
  define loc where "loc = \<lparr>declination = spec_declination jd, rightAscension = ra\<rparr>"
  have o: "spec_obliquityOfEcliptic jd = 23.439 - 0.0000004 * (jd - 2451545)"
    by (simp only: spec_obliquityOfEcliptic_def spec_numDays_def)
  have 1: "computeSunCelestialLocation (Present jd) = Inr loc"
    by (simp only: computeSunCelestialLocation_Present loc_def ra_def)
  have d: "declination loc = spec_declination jd" by (simp add: loc_def)
  have 2: "declination loc
      = arcsin (sin ((23.439 - 0.0000004 * (jd - 2451545)) * (pi / 180))
                * sin (spec_eclipticLongitude jd * (pi / 180))) * (180 / pi)"
    by (simp only: d spec_declination_def o)
  have b: "\<bar>declination loc\<bar> \<le> \<bar>23.439 - 0.0000004 * (jd - 2451545)\<bar>"
    using spec_declination_bound(1) [of jd] by (simp only: d o)
  have 3: "\<bar>declination loc\<bar> \<le> 90"
    using spec_declination_bound(2) [of jd] by (simp only: d)
  have 4: "\<bar>23.439 - 0.0000004 * (jd - 2451545)\<bar> \<le> 23.5 \<longrightarrow> \<bar>declination loc\<bar> \<le> 23.5"
    using b by linarith
  show ?thesis using 1 2 3 4 by blast
qed

text \<open>The epoch J2000.0, where the obliquity is 23.439 degrees.\<close>

theorem declination_within_obliquity_interval_witness:
  "\<bar>23.439 - 0.0000004 * (2451545 - 2451545)\<bar> \<le> (23.5 :: real)
   \<and> \<not> isl (computeSunCelestialLocation (Present 2451545))
   \<and> \<bar>declination (projr (computeSunCelestialLocation (Present 2451545)))\<bar> \<le> 23.5"
proof -
  have h: "\<bar>23.439 - 0.0000004 * (2451545 - 2451545)\<bar> \<le> (23.5 :: real)" by simp
  show ?thesis using h declination_within_obliquity_interval [of 2451545] by auto
qed

text \<open>
  C5, as the claim states it, fails far from J2000.0: at the Julian date -163950955 the
  obliquity of the computation is 90 degrees, and the declination is below -69 degrees.
\<close>

theorem declination_bound_counterexample:
  "\<not> isl (computeSunCelestialLocation (Present (- 163950955)))
   \<and> declination (projr (computeSunCelestialLocation (Present (- 163950955)))) < - 69"
proof -
  define l where "l = spec_eclipticLongitude (- 163950955)"
  have "\<bar>l - 2889815 / 10000\<bar> \<le> 1935 / 1000"
    using spec_eclipticLongitude_near [of "- 163950955"] by (simp add: far_meanLongitude l_def)
  then have "l - 360 < - 69" by linarith
  then have "spec_declination (- 163950955) < - 69" by (simp only: far_declination l_def)
  then show ?thesis by (simp add: computeSunCelestialLocation_Present)
qed

text \<open>
  C6, as the source has it. The Julian date is monotone in the time value of the Date, and
  strictly so exactly between instants of different whole UTC seconds: for time values
  \<open>t1\<close> and \<open>t2\<close> in milliseconds, the Julian date of the first is less than that of the
  second if and only if \<open>t1\<close> lies in an earlier second than \<open>t2\<close>, and it is never
  greater when \<open>t1 \<le> t2\<close>.
\<close>

theorem computeJulianDate_monotone:
  "\<exists>j1 j2. computeJulianDate (Date t1) = Inr j1 \<and> computeJulianDate (Date t2) = Inr j2
      \<and> (j1 < j2 \<longleftrightarrow> t1 div 1000 < t2 div 1000)
      \<and> (t1 \<le> t2 \<longrightarrow> j1 \<le> j2)"
proof -
  have "t1 \<le> t2 \<Longrightarrow> t1 div 1000 \<le> t2 div 1000" by (rule zdiv_mono1) simp_all
  then show ?thesis by (simp add: computeJulianDate_closed_form divide_le_cancel divide_less_cancel)
qed

text \<open>The instants 1970-01-01T00:00:00Z and one second later.\<close>

theorem computeJulianDate_monotone_witness:
  "(0 :: int) \<le> 1000
   \<and> projr (computeJulianDate (Date 0)) < projr (computeJulianDate (Date 1000))
   \<and> projr (computeJulianDate (Date 0)) \<le> projr (computeJulianDate (Date 1000))"
  using computeJulianDate_monotone [of 0 1000] by auto

text \<open>
  C6, as the claim states it, fails: the Dates with time values 0 and 1
  (1970-01-01T00:00:00.000Z and 1970-01-01T00:00:00.001Z, one millisecond apart) have the
  same Julian date, 2440587.5.
\<close>

theorem julian_date_strict_monotonicity_counterexample:
  "(0 :: int) < 1
   \<and> computeJulianDate (Date 0) = Inr 2440587.5
   \<and> computeJulianDate (Date 1) = Inr 2440587.5
   \<and> \<not> projr (computeJulianDate (Date 0)) < projr (computeJulianDate (Date 1))"
  by (simp add: computeJulianDate_closed_form)


text \<open>
  C8. \<^verbatim>\<open>celestialToGeographic\<close> returns the declination of its argument as the latitude,
  unchanged, whatever the declination is (no check that it lies between -90 and 90) and
  whatever the Julian date is.
\<close>

theorem latitude_is_declination:
  "\<exists>g. celestialToGeographic (Present loc) (Present jd) = Inr g
      \<and> latitude g = declination loc"
  by (simp add: celestialToGeographic_Present)

text \<open>
  C9. Every function raises an ArgumentError, and returns nothing, when a required argument
  is missing: \<^verbatim>\<open>computeSunGeographicLocation\<close> and \<^verbatim>\<open>computeJulianDate\<close> on a value
  that is not a Date; \<^verbatim>\<open>computeSunCelestialLocation\<close> and \<^verbatim>\<open>normalizeAngle\<close> on
  undefined or null; \<^verbatim>\<open>celestialToGeographic\<close> on an undefined or null celestial location
  (whatever the Julian date) and on an undefined or null Julian date.
\<close>

theorem missing_argument_errors:
  "computeSunGeographicLocation NonDate
     = Inl (ArgumentError ''computeSunGeographicLocation'' ''missingDate'')
   \<and> computeJulianDate NonDate = Inl (ArgumentError ''computeJulianDate'' ''missingDate'')
   \<and> computeSunCelestialLocation Undefined
     = Inl (ArgumentError ''computeSunCelestialLocation'' ''missingJulianDate'')
   \<and> computeSunCelestialLocation Null
     = Inl (ArgumentError ''computeSunCelestialLocation'' ''missingJulianDate'')
   \<and> celestialToGeographic Undefined julianDate
     = Inl (ArgumentError ''celestialToGeographic'' ''missingCelestialLocation'')
   \<and> celestialToGeographic Null julianDate
     = Inl (ArgumentError ''celestialToGeographic'' ''missingCelestialLocation'')
   \<and> celestialToGeographic (Present loc) Undefined
     = Inl (ArgumentError ''celestialToGeographic'' ''missingJulianDate'')
   \<and> celestialToGeographic (Present loc) Null
     = Inl (ArgumentError ''celestialToGeographic'' ''missingJulianDate'')
   \<and> normalizeAngle Undefined = Inl (ArgumentError ''normalizeAngle'' ''missingAngle'')
   \<and> normalizeAngle Null = Inl (ArgumentError ''normalizeAngle'' ''missingAngle'')"
  by (simp add: computeSunGeographicLocation_def computeJulianDate_def
      computeSunCelestialLocation_def celestialToGeographic_def normalizeAngle_def)

text \<open>
  C10. Two valid Dates in the same UTC second, which differ in their milliseconds only, have
  the same Julian date.
\<close>

theorem computeJulianDate_ignores_milliseconds:
  "t1 div 1000 = t2 div 1000 \<Longrightarrow> computeJulianDate (Date t1) = computeJulianDate (Date t2)"
  by (simp add: computeJulianDate_closed_form)

text \<open>The time values 1500 and 1999, both in the second after the epoch.\<close>

theorem computeJulianDate_ignores_milliseconds_witness:
  "(1500 :: int) div 1000 = 1999 div 1000
   \<and> computeJulianDate (Date 1500) = computeJulianDate (Date 1999)"
  using computeJulianDate_ignores_milliseconds [of 1500 1999] by simp

end
